theory Spec2Isabelle
  imports Complex_Main "HOL-Library.AList" "HOL-Library.Sublist"
begin

section \<open>Values, cells and worksheets\<close>

text \<open>
  The script \<^verbatim>\<open>excel_writer.py\<close> drives two libraries: a dataframe library (pandas) and a
  spreadsheet library (openpyxl). The embedding below keeps the part of their state that the
  script reads or writes: cell values, fonts, fills, number formats, the sparse cell store
  of a worksheet with its row counter, tables, column widths, and the columns of a
  dataframe with their element kind. Exceptions are values of the type \<open>error\<close>; a call
  that mutates its arguments in place returns the mutated state, also when it raises.

  Outside the model: the spreadsheet library's limits on sheet height and string length and
  its check for control characters in strings, and characters outside ASCII (a \<open>char\<close> is
  a byte). A float cell value is carried around by the script and never computed with, so
  it is identified by its \<^verbatim>\<open>repr\<close>. A column width is the one float the script computes:
  it is given by the exact value of the double that the multiplication returns.
\<close>

datatype error =
    KeyError string
  | AttributeError
  | TypeError
  | ValueError
  | PermissionError
  | OSError
  | EOFError

text \<open>What a call leaves behind: the state after a normal return, or the exception raised
  together with the state as mutated up to that point.\<close>

datatype 's outcome = Returned 's | Raised error 's

text \<open>A date/time value, with the fields of Python's \<^verbatim>\<open>datetime\<close> down to the second.\<close>

record timestamp =
  ts_year :: nat
  ts_month :: nat
  ts_day :: nat
  ts_hour :: nat
  ts_minute :: nat
  ts_second :: nat

datatype pyval =
    PNone
  | PStr string
  | PInt int
  | PFloat string
  | PBool bool
  | PTimestamp timestamp
  | PNaT

record font =
  font_name :: "string option"
  font_sz :: "nat option"
  font_b :: bool
  font_i :: bool

record fill =
  fill_type :: "string option"
  start_color :: string

text \<open>\<^verbatim>\<open>Font(bold=True)\<close>: every other attribute keeps the constructor's default.\<close>

definition Font :: "bool \<Rightarrow> font" where
  "Font bold = \<lparr>font_name = None, font_sz = None, font_b = bold, font_i = False\<rparr>"

text \<open>\<^verbatim>\<open>PatternFill(fill_type=..., start_color=...)\<close>: a colour given as six hex digits is
  stored as aRGB with the alpha channel \<^verbatim>\<open>00\<close> in front.\<close>

definition PatternFill :: "string option \<Rightarrow> string \<Rightarrow> fill" where
  "PatternFill ft sc =
     \<lparr>fill_type = ft, start_color = (if length sc = 6 then ''00'' @ sc else sc)\<rparr>"

definition DEFAULT_FONT :: font where
  "DEFAULT_FONT = \<lparr>font_name = Some ''Calibri'', font_sz = Some 11, font_b = False, font_i = False\<rparr>"

definition DEFAULT_FILL :: fill where
  "DEFAULT_FILL = \<lparr>fill_type = None, start_color = ''00000000''\<rparr>"

record cell =
  cvalue :: pyval
  font :: font
  fill :: fill
  number_format :: string

text \<open>A fresh cell holding \<open>v\<close>: default style; a date/time value, the missing one
  included, brings its date format.\<close>

definition new_cell :: "pyval \<Rightarrow> cell" where
  "new_cell v =
     \<lparr>cvalue = v, font = DEFAULT_FONT, fill = DEFAULT_FILL,
      number_format =
        (case v of
           PTimestamp t \<Rightarrow> ''yyyy-mm-dd h:mm:ss''
         | PNaT \<Rightarrow> ''yyyy-mm-dd h:mm:ss''
         | _ \<Rightarrow> ''General'')\<rparr>"

text \<open>A worksheet: its title, the cell store \<^verbatim>\<open>_cells\<close> keyed by (row, column) from 1, the
  counter \<^verbatim>\<open>_current_row\<close>, its tables, and the widths in \<^verbatim>\<open>column_dimensions\<close> keyed by
  column letter. Of the parent workbook it carries what \<^verbatim>\<open>add_table\<close> looks at: the names of
  the tables of the other worksheets and the defined names.\<close>

record table_style =
  style_name :: string
  showFirstColumn :: bool
  showLastColumn :: bool
  showRowStripes :: bool
  showColumnStripes :: bool

record table =
  displayName :: string
  ref :: string
  headerRowCount :: nat
  totalsRowCount :: nat
  tableStyleInfo :: table_style

record worksheet =
  title :: string
  cells :: "((nat \<times> nat) \<times> cell) list"
  current_row :: nat
  tables :: "table list"
  other_tables :: "string list"
  defined_names :: "string list"
  column_widths :: "(string \<times> rat) list"

definition max_row :: "worksheet \<Rightarrow> nat" where
  "max_row ws = (if cells ws = [] then 1 else Max (set (map (fst \<circ> fst) (cells ws))))"

definition max_column :: "worksheet \<Rightarrow> nat" where
  "max_column ws = (if cells ws = [] then 1 else Max (set (map (snd \<circ> fst) (cells ws))))"

text \<open>\<^verbatim>\<open>ws.cell(row, column)\<close> returns the cell at a position and creates an empty one there
  when the store has none. \<open>ws_cell\<close> is the store after the call, \<open>cell_at\<close> the cell
  the call returns.\<close>

definition ws_cell :: "nat \<Rightarrow> nat \<Rightarrow> worksheet \<Rightarrow> worksheet" where
  "ws_cell r c ws =
     (case map_of (cells ws) (r, c) of
        Some x \<Rightarrow> ws
      | None \<Rightarrow> ws\<lparr>cells := AList.update (r, c) (new_cell PNone) (cells ws),
                    current_row := max r (current_row ws)\<rparr>)"

definition cell_at :: "worksheet \<Rightarrow> nat \<Rightarrow> nat \<Rightarrow> cell" where
  "cell_at ws r c = (case map_of (cells ws) (r, c) of Some x \<Rightarrow> x | None \<Rightarrow> new_cell PNone)"

text \<open>Assigning attributes of the cell object at a position.\<close>

definition modify_cell :: "(cell \<Rightarrow> cell) \<Rightarrow> nat \<Rightarrow> nat \<Rightarrow> worksheet \<Rightarrow> worksheet" where
  "modify_cell f r c ws = ws\<lparr>cells := AList.update (r, c) (f (cell_at ws r c)) (cells ws)\<rparr>"

text \<open>Python's \<^verbatim>\<open>range(a, b)\<close>.\<close>

definition py_range :: "nat \<Rightarrow> nat \<Rightarrow> nat list" where
  "py_range a b = [a..<b]"

section \<open>format\_totals\<close>

text \<open>\<^verbatim>\<open>"Total" in cell_value\<close>: substring search in a string; any other cell value
  (a number, a boolean, a date, an empty cell) does not support the operator.\<close>

fun contains :: "string \<Rightarrow> string \<Rightarrow> bool" where
  "contains p [] = (p = [])"
| "contains p (c # cs) = (prefix p (c # cs) \<or> contains p cs)"

definition py_in :: "string \<Rightarrow> pyval \<Rightarrow> error + bool" where
  "py_in p v = (case v of PStr s \<Rightarrow> Inr (contains p s) | _ \<Rightarrow> Inl TypeError)"

definition highlight :: "cell \<Rightarrow> cell" where
  "highlight x = x\<lparr>font := Font True, fill := PatternFill (Some ''solid'') ''b7aea5''\<rparr>"

text \<open>One turn of the loop over \<^verbatim>\<open>ws.iter_rows(...)\<close>: the row's cells for the columns
  \<open>1..max_col\<close> are fetched (and created where missing), the first one is tested, and
  on a match every cell of the row is restyled.\<close>

definition format_row :: "nat \<Rightarrow> nat \<Rightarrow> worksheet \<Rightarrow> worksheet outcome" where
  "format_row max_col r ws =
     (let ws1 = fold (ws_cell r) (py_range 1 (max_col + 1)) ws
      in case py_in ''Total'' (cvalue (cell_at ws1 r 1)) of
           Inl e \<Rightarrow> Raised e ws1
         | Inr True \<Rightarrow> Returned (fold (modify_cell highlight r) (py_range 1 (max_col + 1)) ws1)
         | Inr False \<Rightarrow> Returned ws1)"

fun format_rows :: "nat \<Rightarrow> nat list \<Rightarrow> worksheet \<Rightarrow> worksheet outcome" where
  "format_rows max_col [] ws = Returned ws"
| "format_rows max_col (r # rs) ws =
     (case format_row max_col r ws of
        Returned ws1 \<Rightarrow> format_rows max_col rs ws1
      | Raised e ws1 \<Rightarrow> Raised e ws1)"

definition format_totals :: "worksheet \<Rightarrow> worksheet outcome" where
  "format_totals ws = format_rows (max_column ws) (py_range 2 (max_row ws + 1)) ws"

section \<open>Strings and column letters\<close>

definition is_lower :: "char \<Rightarrow> bool" where
  "is_lower c = (97 \<le> (of_char c :: nat) \<and> (of_char c :: nat) \<le> 122)"

definition is_upper :: "char \<Rightarrow> bool" where
  "is_upper c = (65 \<le> (of_char c :: nat) \<and> (of_char c :: nat) \<le> 90)"

definition to_upper :: "char \<Rightarrow> char" where
  "to_upper c = (if is_lower c then char_of ((of_char c :: nat) - 32) else c)"

definition to_lower :: "char \<Rightarrow> char" where
  "to_lower c = (if is_upper c then char_of ((of_char c :: nat) + 32) else c)"

text \<open>\<^verbatim>\<open>str.title()\<close>: a letter that follows a letter is lower-cased, any other letter is
  upper-cased, every other character is kept. The flag says whether the previous character
  was a letter.\<close>

fun title_from :: "bool \<Rightarrow> string \<Rightarrow> string" where
  "title_from previous_is_cased [] = []"
| "title_from previous_is_cased (c # cs) =
     (if previous_is_cased then to_lower c else to_upper c)
       # title_from (is_lower c \<or> is_upper c) cs"

definition str_title :: "string \<Rightarrow> string" where
  "str_title s = title_from False s"

definition digit :: "nat \<Rightarrow> char" where
  "digit n = char_of (48 + n mod 10)"

text \<open>The decimal numeral of a natural number, as \<^verbatim>\<open>str\<close> and f-strings print it.\<close>

function dec :: "nat \<Rightarrow> string" where
  "dec n = (if n < 10 then [digit n] else dec (n div 10) @ [digit n])"
  by pat_completeness auto
termination
  by (relation "measure id") auto

declare dec.simps [simp del]

text \<open>\<^verbatim>\<open>get_column_letter\<close>: the letters of the columns 1 to 18278 (\<^verbatim>\<open>A\<close> to \<^verbatim>\<open>ZZZ\<close>), a
  \<^verbatim>\<open>ValueError\<close> for any other index.\<close>

function col_letters :: "nat \<Rightarrow> string" where
  "col_letters n =
     (if n = 0 then [] else col_letters ((n - 1) div 26) @ [char_of (65 + (n - 1) mod 26)])"
  by pat_completeness auto
termination
  by (relation "measure id") auto

declare col_letters.simps [simp del]

definition get_column_letter :: "nat \<Rightarrow> error + string" where
  "get_column_letter col_idx =
     (if 1 \<le> col_idx \<and> col_idx \<le> 18278 then Inr (col_letters col_idx) else Inl ValueError)"

text \<open>The column index that a worksheet derives from the letters in \<^verbatim>\<open>ws[letters]\<close>.\<close>

definition column_index_from_string :: "string \<Rightarrow> nat" where
  "column_index_from_string s = foldl (\<lambda>acc c. acc * 26 + ((of_char c :: nat) - 64)) 0 s"

section \<open>Dataframes\<close>

text \<open>A column holds either date/time values (\<open>None\<close> is the missing value \<^verbatim>\<open>NaT\<close>), and
  then offers the \<^verbatim>\<open>.dt\<close> accessor, or values of any other kind. A dataframe has its column
  labels, one series per label, and its number of rows \<^verbatim>\<open>len(df)\<close>.\<close>

datatype series = DatetimeSeries "timestamp option list" | ValueSeries "pyval list"

record dataframe =
  columns :: "string list"
  data :: "series list"
  nrows :: nat

definition series_len :: "series \<Rightarrow> nat" where
  "series_len s = (case s of DatetimeSeries ts \<Rightarrow> length ts | ValueSeries vs \<Rightarrow> length vs)"

text \<open>The invariant every dataframe of the library satisfies.\<close>

definition wf_dataframe :: "dataframe \<Rightarrow> bool" where
  "wf_dataframe df \<longleftrightarrow>
     length (data df) = length (columns df) \<and> list_all (\<lambda>s. series_len s = nrows df) (data df)"

text \<open>The Python values a column yields when it is iterated.\<close>

definition series_values :: "series \<Rightarrow> pyval list" where
  "series_values s =
     (case s of
        DatetimeSeries ts \<Rightarrow> map (\<lambda>t. case t of None \<Rightarrow> PNaT | Some x \<Rightarrow> PTimestamp x) ts
      | ValueSeries vs \<Rightarrow> vs)"

text \<open>A numeral filled with zeros on the left up to a width.\<close>

definition zfill :: "nat \<Rightarrow> string \<Rightarrow> string" where
  "zfill w s = replicate (w - length s) (CHR ''0'') @ s"

definition pad2 :: "nat \<Rightarrow> string" where
  "pad2 n = zfill 2 (dec n)"

definition pad4 :: "nat \<Rightarrow> string" where
  "pad4 n = zfill 4 (dec n)"

text \<open>\<^verbatim>\<open>strftime("%m/%d/%Y")\<close> on one date/time value: month and day filled to two digits,
  the year as the C library prints it, with the digits it has.\<close>

definition strftime :: "timestamp \<Rightarrow> string" where
  "strftime t = pad2 (ts_month t) @ ''/'' @ pad2 (ts_day t) @ ''/'' @ dec (ts_year t)"

text \<open>\<^verbatim>\<open>Series.dt.strftime("%m/%d/%Y")\<close>: a column of text; a missing date becomes the float
  \<^verbatim>\<open>nan\<close>.\<close>

definition dt_strftime :: "timestamp option list \<Rightarrow> series" where
  "dt_strftime ts =
     ValueSeries (map (\<lambda>t. case t of None \<Rightarrow> PFloat ''nan'' | Some x \<Rightarrow> PStr (strftime x)) ts)"

text \<open>The positions of a label among the column labels (from 0).\<close>

definition positions :: "string list \<Rightarrow> string \<Rightarrow> nat list" where
  "positions cols k = filter (\<lambda>i. cols ! i = k) [0..<length cols]"

text \<open>The body of the loop over \<^verbatim>\<open>formatted_columns.items()\<close>, on the dataframe and the
  list \<^verbatim>\<open>currency_columns\<close>. \<^verbatim>\<open>df[col]\<close> and \<^verbatim>\<open>df.columns.get_loc(col)\<close> raise
  \<^verbatim>\<open>KeyError\<close> for a label that no column has. For a label that several columns share,
  \<^verbatim>\<open>df[col]\<close> is a dataframe, which has no \<^verbatim>\<open>.dt\<close>, and \<^verbatim>\<open>get_loc\<close> returns a slice or
  mask, which is no column index. A column that does not hold date/time values has no
  \<^verbatim>\<open>.dt\<close> either.\<close>

definition format_column ::
  "string \<Rightarrow> string \<Rightarrow> dataframe \<times> string list \<Rightarrow> (dataframe \<times> string list) outcome" where
  "format_column col format s =
     (case s of (df, currency_columns) \<Rightarrow>
        if format = ''date'' then
          (case positions (columns df) col of
             [] \<Rightarrow> Raised (KeyError col) s
           | [i] \<Rightarrow>
               (case data df ! i of
                  DatetimeSeries ts \<Rightarrow>
                    Returned (df\<lparr>data := (data df)[i := dt_strftime ts]\<rparr>, currency_columns)
                | ValueSeries vs \<Rightarrow> Raised AttributeError s)
           | _ \<Rightarrow> Raised AttributeError s)
        else if format = ''currency'' then
          (case positions (columns df) col of
             [] \<Rightarrow> Raised (KeyError col) s
           | [i] \<Rightarrow>
               (case get_column_letter (i + 1) of
                  Inl e \<Rightarrow> Raised e s
                | Inr letter \<Rightarrow> Returned (df, currency_columns @ [letter]))
           | _ \<Rightarrow> Raised TypeError s)
        else Returned s)"

fun format_columns ::
  "(string \<times> string) list \<Rightarrow> dataframe \<times> string list \<Rightarrow> (dataframe \<times> string list) outcome" where
  "format_columns [] s = Returned s"
| "format_columns ((col, format) # rest) s =
     (case format_column col format s of
        Returned s' \<Rightarrow> format_columns rest s'
      | Raised e s' \<Rightarrow> Raised e s')"

text \<open>\<^verbatim>\<open>dataframe_to_rows(df, index=False, header=True)\<close>: the labels, then the records.\<close>

definition dataframe_to_rows :: "dataframe \<Rightarrow> pyval list list" where
  "dataframe_to_rows df =
     map PStr (columns df)
       # map (\<lambda>i. map (\<lambda>s. series_values s ! i) (data df)) (py_range 0 (nrows df))"

section \<open>create\_workbook\<close>

text \<open>\<^verbatim>\<open>ws.append(row)\<close>: the values go into fresh cells of the row after \<^verbatim>\<open>_current_row\<close>,
  from column 1 on.\<close>

definition append :: "pyval list \<Rightarrow> worksheet \<Rightarrow> worksheet" where
  "append row ws =
     (let row_idx = current_row ws + 1
      in (fold (\<lambda>(col_idx, content) w.
                  w\<lparr>cells := AList.update (row_idx, col_idx) (new_cell content) (cells w)\<rparr>)
            (zip (py_range 1 (length row + 1)) row) ws)\<lparr>current_row := row_idx\<rparr>)"

text \<open>The global \<^verbatim>\<open>style\<close> that the script defines before it calls \<^verbatim>\<open>create_workbook\<close>.\<close>

definition style :: table_style where
  "style = \<lparr>style_name = ''TableStyleMedium9'', showFirstColumn = False, showLastColumn = False,
            showRowStripes = True, showColumnStripes = True\<rparr>"

text \<open>\<^verbatim>\<open>ws.add_table(tab)\<close> refuses a name that the workbook already uses: the lower-cased
  name is compared with the lower-cased names of the tables of every worksheet, and
  looked up as it is among the defined names.\<close>

definition duplicate_name :: "string \<Rightarrow> worksheet \<Rightarrow> bool" where
  "duplicate_name name ws \<longleftrightarrow>
     map to_lower name \<in> set (map (map to_lower) (map displayName (tables ws) @ other_tables ws))
     \<or> map to_lower name \<in> set (defined_names ws)"

definition add_table :: "table \<Rightarrow> worksheet \<Rightarrow> worksheet outcome" where
  "add_table tab ws =
     (if duplicate_name (displayName tab) ws
      then Raised ValueError ws
      else Returned (ws\<lparr>tables := tables ws @ [tab]\<rparr>))"

text \<open>\<^verbatim>\<open>for cell in ws[i]: cell.number_format = ...\<close>: \<^verbatim>\<open>ws[i]\<close> is the column's cells for
  the rows 1 to \<^verbatim>\<open>max_row\<close>, created where missing.\<close>

definition currency_format :: string where
  "currency_format = [CHR 0x22, CHR ''$'', CHR 0x22] @ ''#,##0.00_-''"

definition set_number_format :: "string \<Rightarrow> cell \<Rightarrow> cell" where
  "set_number_format f x = x\<lparr>number_format := f\<rparr>"

definition format_currency :: "string \<Rightarrow> worksheet \<Rightarrow> worksheet" where
  "format_currency i ws =
     (let c = column_index_from_string i;
          rows = py_range 1 (max_row ws + 1);
          ws1 = fold (\<lambda>r. ws_cell r c) rows ws
      in fold (\<lambda>r. modify_cell (set_number_format currency_format) r c) rows ws1)"

text \<open>\<^verbatim>\<open>str(value)\<close> and \<^verbatim>\<open>len(value)\<close> of a cell value. Only text has a length.\<close>

definition py_str :: "pyval \<Rightarrow> string" where
  "py_str v =
     (case v of
        PNone \<Rightarrow> ''None''
      | PStr s \<Rightarrow> s
      | PInt i \<Rightarrow> (if i < 0 then ''-'' @ dec (nat (- i)) else dec (nat i))
      | PFloat r \<Rightarrow> r
      | PBool b \<Rightarrow> (if b then ''True'' else ''False'')
      | PTimestamp t \<Rightarrow>
          pad4 (ts_year t) @ ''-'' @ pad2 (ts_month t) @ ''-'' @ pad2 (ts_day t) @ '' ''
            @ pad2 (ts_hour t) @ '':'' @ pad2 (ts_minute t) @ '':'' @ pad2 (ts_second t)
      | PNaT \<Rightarrow> ''NaT'')"

definition py_len :: "pyval \<Rightarrow> error + nat" where
  "py_len v = (case v of PStr s \<Rightarrow> Inr (length s) | _ \<Rightarrow> Inl TypeError)"

text \<open>The body of the inner loop of the width pass, with its \<^verbatim>\<open>try\<close> and bare \<^verbatim>\<open>except\<close>:
  the test measures \<^verbatim>\<open>str(cell.value)\<close>, the assignment \<^verbatim>\<open>cell.value\<close> itself, and an
  exception leaves \<^verbatim>\<open>max_length\<close> as it was.\<close>

definition measure_cell :: "pyval \<Rightarrow> nat \<Rightarrow> nat" where
  "measure_cell v max_length =
     (if length (py_str v) > max_length
      then (case py_len v of Inr n \<Rightarrow> n | Inl e \<Rightarrow> max_length)
      else max_length)"

text \<open>The number of binary digits of a positive integer.\<close>

function bit_length :: "int \<Rightarrow> nat" where
  "bit_length n = (if n \<le> 0 then 0 else Suc (bit_length (n div 2)))"
  by pat_completeness auto
termination
  by (relation "measure nat") auto

declare bit_length.simps [simp del]

text \<open>\<^verbatim>\<open>k * 1.4\<close> for an integer \<open>k\<close> below \<open>2 ^ 53\<close>: the literal \<^verbatim>\<open>1.4\<close> is the double
  \<open>6305039478318694 / 2 ^ 52\<close>, and the product is rounded to the nearest double, to the
  even one of two that are equally near.\<close>

definition times_1_4 :: "nat \<Rightarrow> rat" where
  "times_1_4 k =
     (let p = int k * 6305039478318694;
          e = bit_length p - 53;
          q = p div 2 ^ e;
          r = p mod 2 ^ e;
          m = (if 2 ^ e < 2 * r \<or> (2 * r = 2 ^ e \<and> q mod 2 = 1) then q + 1 else q)
      in of_int (m * 2 ^ e) / 2 ^ 52)"

definition adjust_column :: "nat \<Rightarrow> string \<Rightarrow> worksheet \<Rightarrow> worksheet" where
  "adjust_column col column ws =
     (let c = column_index_from_string column;
          rows = py_range 1 (max_row ws + 1);
          ws1 = fold (\<lambda>r. ws_cell r c) rows ws;
          max_length = fold (\<lambda>r. measure_cell (cvalue (cell_at ws1 r c))) rows 0;
          adjusted_width = times_1_4 (max_length + 2)
      in ws1\<lparr>column_widths := AList.update column adjusted_width (column_widths ws1)\<rparr>)"

fun adjust_columns :: "nat list \<Rightarrow> worksheet \<Rightarrow> worksheet outcome" where
  "adjust_columns [] ws = Returned ws"
| "adjust_columns (col # cols) ws =
     (case get_column_letter col of
        Inl e \<Rightarrow> Raised e ws
      | Inr column \<Rightarrow> adjust_columns cols (adjust_column col column ws))"

definition create_workbook ::
  "worksheet \<Rightarrow> dataframe \<Rightarrow> (string \<times> string) list \<Rightarrow> (worksheet \<times> dataframe) outcome" where
  "create_workbook ws df formatted_columns =
     (let df1 = df\<lparr>columns := map str_title (columns df)\<rparr>
      in case format_columns formatted_columns (df1, []) of
           Raised e (df2, currency_columns) \<Rightarrow> Raised e (ws, df2)
         | Returned (df2, currency_columns) \<Rightarrow>
             (let ws1 = fold append (dataframe_to_rows df2) ws
              in case get_column_letter (max_column ws1) of
                   Inl e \<Rightarrow> Raised e (ws1, df2)
                 | Inr letter \<Rightarrow>
                     (let tab = \<lparr>displayName = title ws1,
                                 ref = ''A1:'' @ letter @ dec (nrows df2 + 1),
                                 headerRowCount = 1, totalsRowCount = 0,
                                 tableStyleInfo = style\<rparr>
                      in case add_table tab ws1 of
                           Raised e ws2 \<Rightarrow> Raised e (ws2, df2)
                         | Returned ws2 \<Rightarrow>
                             (let ws3 = fold format_currency currency_columns ws2
                              in case adjust_columns (py_range 1 (max_column ws3 + 1)) ws3 of
                                   Raised e ws4 \<Rightarrow> Raised e (ws4, df2)
                                 | Returned ws4 \<Rightarrow> Returned (ws4, df2)))))"

section \<open>The save loop\<close>

text \<open>The loop at the end of the script talks to the file system and the console. An
  environment gives what the \<open>n\<close>-th call of \<^verbatim>\<open>wb.save\<close> does (\<open>None\<close>: it writes the
  file; \<open>Some e\<close>: it raises \<open>e\<close>, which is \<^verbatim>\<open>PermissionError\<close> for a file held open
  elsewhere) and what the \<open>n\<close>-th call of \<^verbatim>\<open>input\<close> reads (\<open>Some\<close> line, or \<open>None\<close> at
  the end of the input, where \<^verbatim>\<open>input\<close> raises \<^verbatim>\<open>EOFError\<close>). Every attempt before the
  \<open>n\<close>-th has met a locked file and has read one line, so one counter serves both. The
  state is the console output and whether the file was written. The loop need not end:
  \<open>None\<close> is the run that retries for ever.\<close>

definition prompt :: string where
  "prompt = ''Please close the excel file then type 'y' to continue: ''"

partial_function (option) save_loop ::
  "(nat \<Rightarrow> error option) \<Rightarrow> (nat \<Rightarrow> string option) \<Rightarrow> nat \<Rightarrow> string list
     \<Rightarrow> (string list \<times> bool) outcome option" where
  "save_loop save input n out =
     (case save n of
        None \<Rightarrow> Some (Returned (out @ [''File saved''], True))
      | Some e \<Rightarrow>
          (if e = PermissionError then
             (case input n of
                None \<Rightarrow> Some (Raised EOFError (out @ [prompt], False))
              | Some line \<Rightarrow>
                  (if line \<noteq> ''y''
                   then Some (Returned (out @ [prompt, ''File not saved''], False))
                   else save_loop save input (Suc n) (out @ [prompt])))
           else Some (Raised e (out, False))))"

section \<open>Predicates of the statements\<close>

text \<open>The ways in which attempt \<open>n\<close> of the save loop, entered with the console output
  \<open>out\<close>, ends the loop with the result \<open>r\<close>: the file is saved; the file is locked and
  the answer is not \<^verbatim>\<open>y\<close>; the file is locked and there is no answer to read; saving fails
  otherwise than on a locked file.\<close>

definition ends_at ::
  "(nat \<Rightarrow> error option) \<Rightarrow> (nat \<Rightarrow> string option) \<Rightarrow> nat \<Rightarrow> string list
     \<Rightarrow> (string list \<times> bool) outcome \<Rightarrow> bool" where
  "ends_at save input n out r \<longleftrightarrow>
     save n = None \<and> r = Returned (out @ [''File saved''], True)
     \<or> save n = Some PermissionError \<and> (\<exists>line. input n = Some line \<and> line \<noteq> ''y'')
        \<and> r = Returned (out @ [prompt, ''File not saved''], False)
     \<or> save n = Some PermissionError \<and> input n = None
        \<and> r = Raised EOFError (out @ [prompt], False)
     \<or> (\<exists>e. save n = Some e \<and> e \<noteq> PermissionError \<and> r = Raised e (out, False))"

definition is_text :: "pyval \<Rightarrow> bool" where
  "is_text v = (case v of PStr s \<Rightarrow> True | _ \<Rightarrow> False)"

definition has_total :: "pyval \<Rightarrow> bool" where
  "has_total v = (case v of PStr s \<Rightarrow> contains ''Total'' s | _ \<Rightarrow> False)"

text \<open>A calendar date with a year of four digits.\<close>

definition valid_date :: "timestamp \<Rightarrow> bool" where
  "valid_date t \<longleftrightarrow>
     1000 \<le> ts_year t \<and> ts_year t \<le> 9999 \<and> 1 \<le> ts_month t \<and> ts_month t \<le> 12
     \<and> 1 \<le> ts_day t \<and> ts_day t \<le> 31"

text \<open>A text of the pattern \<^verbatim>\<open>MM/DD/YYYY\<close> that spells the month, day and year of a date.\<close>

definition is_digit :: "char \<Rightarrow> bool" where
  "is_digit c = (48 \<le> (of_char c :: nat) \<and> (of_char c :: nat) \<le> 57)"

definition number :: "string \<Rightarrow> nat" where
  "number s = foldl (\<lambda>n c. 10 * n + ((of_char c :: nat) - 48)) 0 s"

definition mmddyyyy :: "string \<Rightarrow> timestamp \<Rightarrow> bool" where
  "mmddyyyy s t \<longleftrightarrow>
     length s = 10 \<and> s ! 2 = CHR ''/'' \<and> s ! 5 = CHR ''/''
     \<and> list_all is_digit (take 2 s @ take 2 (drop 3 s) @ drop 6 s)
     \<and> number (take 2 s) = ts_month t
     \<and> number (take 2 (drop 3 s)) = ts_day t
     \<and> number (drop 6 s) = ts_year t"

section \<open>Concrete inputs\<close>

text \<open>A worksheet with a header and two records, the second a totals line.\<close>

definition totals_sheet :: worksheet where
  "totals_sheet =
     \<lparr>title = ''Sample_Sheet'',
      cells = [((1, 1), new_cell (PStr ''Description'')), ((1, 2), new_cell (PStr ''Amount'')),
               ((2, 1), new_cell (PStr ''Rent'')), ((2, 2), new_cell (PFloat ''-1200.0'')),
               ((3, 1), new_cell (PStr ''Grand Total'')), ((3, 2), new_cell (PFloat ''3649.5''))],
      current_row = 3, tables = [], other_tables = [], defined_names = [], column_widths = []\<rparr>"

text \<open>A worksheet whose first column holds numbers.\<close>

definition amounts_sheet :: worksheet where
  "amounts_sheet =
     \<lparr>title = ''Sample_Sheet'',
      cells = [((1, 1), new_cell (PStr ''Amount'')), ((2, 1), new_cell (PFloat ''5000.0''))],
      current_row = 2, tables = [], other_tables = [], defined_names = [], column_widths = []\<rparr>"

text \<open>The worksheet of a new workbook, titled as the script titles it.\<close>

definition sample_sheet :: worksheet where
  "sample_sheet = \<lparr>title = ''Sample_Sheet'', cells = [], current_row = 0, tables = [],
     other_tables = [], defined_names = [], column_widths = []\<rparr>"

text \<open>A dataset whose column label is not in title case, with a directive that names the
  column by that label.\<close>

definition lowercase_df :: dataframe where
  "lowercase_df = \<lparr>columns = [''amount''], data = [ValueSeries [PFloat ''-1200.0'']], nrows = 1\<rparr>"

definition lowercase_formats :: "(string \<times> string) list" where
  "lowercase_formats = [(''amount'', ''currency'')]"

text \<open>The directives of the example in the documentation of \<^verbatim>\<open>create_workbook\<close>.\<close>

definition docstring_formats :: "(string \<times> string) list" where
  "docstring_formats = [(''DateColumn'', ''date''), (''AmountColumn'', ''currency'')]"

section \<open>The cell store\<close>

lemma contains_iff: "contains p s \<longleftrightarrow> (\<exists>a b. s = a @ p @ b)"
proof (induction s)
  case Nil then show ?case by auto
next
  case (Cons c cs)
  show ?case
  proof
    assume "contains p (c # cs)"
    then consider "prefix p (c # cs)" | "contains p cs" by auto
    then show "\<exists>a b. c # cs = a @ p @ b"
    proof cases
      case 1 then obtain b where "c # cs = p @ b" by (auto simp: prefix_def)
      then have "c # cs = [] @ p @ b" by simp
      then show ?thesis by blast
    next
      case 2 with Cons obtain a b where "cs = a @ p @ b" by auto
      then have "c # cs = (c # a) @ p @ b" by simp
      then show ?thesis by blast
    qed
  next
    assume "\<exists>a b. c # cs = a @ p @ b"
    then obtain a b where ab: "c # cs = a @ p @ b" by auto
    show "contains p (c # cs)"
    proof (cases a)
      case Nil
      with ab have "prefix p (c # cs)" by (auto simp: prefix_def)
      then show ?thesis by simp
    next
      case (Cons x a') with ab have "cs = a' @ p @ b" by simp
      with Cons.IH show ?thesis by auto
    qed
  qed
qed

lemma set_py_range [simp]: "set (py_range a b) = {a..<b}"
  by (simp add: py_range_def)

lemma distinct_py_range [simp]: "distinct (py_range a b)"
  by (simp add: py_range_def)

lemma map_of_ws_cell:
  "map_of (cells (ws_cell r c ws)) k =
     (if k = (r, c) \<and> map_of (cells ws) k = None then Some (new_cell PNone) else map_of (cells ws) k)"
  by (auto simp: ws_cell_def update_conv' split: option.splits)

lemma map_of_fold_ws_cell:
  "map_of (cells (fold (ws_cell r) cs ws)) (r', c') =
     (if r' = r \<and> c' \<in> set cs \<and> map_of (cells ws) (r', c') = None then Some (new_cell PNone)
      else map_of (cells ws) (r', c'))"
  by (induction cs arbitrary: ws) (auto simp: map_of_ws_cell)

lemma cell_at_fold_ws_cell: "cell_at (fold (ws_cell r) cs ws) r' c' = cell_at ws r' c'"
  by (auto simp: cell_at_def map_of_fold_ws_cell)

lemma map_of_modify_cell:
  "map_of (cells (modify_cell f r c ws)) k =
     (if k = (r, c) then Some (f (cell_at ws r c)) else map_of (cells ws) k)"
  by (simp add: modify_cell_def update_conv')

lemma cell_at_modify_cell:
  "cell_at (modify_cell f r c ws) r' c' = (if (r', c') = (r, c) then f (cell_at ws r c) else cell_at ws r' c')"
  by (simp add: cell_at_def map_of_modify_cell)

lemma map_of_fold_modify_cell:
  "distinct cs \<Longrightarrow> map_of (cells (fold (modify_cell f r) cs ws)) (r', c') =
     (if r' = r \<and> c' \<in> set cs then Some (f (cell_at ws r c')) else map_of (cells ws) (r', c'))"
  by (induction cs arbitrary: ws) (auto simp: map_of_modify_cell cell_at_modify_cell)

lemma format_row_text:
  assumes "is_text (cvalue (cell_at ws r 1))"
  shows "\<exists>ws'. format_row mc r ws = Returned ws' \<and>
           (\<forall>r' c'. map_of (cells ws') (r', c') =
              (if r' = r \<and> 1 \<le> c' \<and> c' \<le> mc
               then Some (if has_total (cvalue (cell_at ws r 1)) then highlight (cell_at ws r c')
                          else cell_at ws r c')
               else map_of (cells ws) (r', c')))"
proof -
  define cs where "cs = py_range 1 (mc + 1)"
  define v where "v = cvalue (cell_at ws r 1)"
  have cs: "distinct cs" "\<And>c. c \<in> set cs \<longleftrightarrow> 1 \<le> c \<and> c \<le> mc"
    by (auto simp: cs_def)
  from assms obtain s where s: "v = PStr s"
    by (auto simp: is_text_def v_def split: pyval.splits)
  define ws1 where "ws1 = fold (ws_cell r) cs ws"
  have fr: "format_row mc r ws =
     (case py_in ''Total'' (cvalue (cell_at ws1 r 1)) of
           Inl e \<Rightarrow> Raised e ws1
         | Inr True \<Rightarrow> Returned (fold (modify_cell highlight r) cs ws1)
         | Inr False \<Rightarrow> Returned ws1)"
    unfolding format_row_def Let_def cs_def ws1_def ..
  have "cvalue (cell_at ws1 r 1) = v"
    unfolding ws1_def v_def by (simp only: cell_at_fold_ws_cell)
  with s have pin: "py_in ''Total'' (cvalue (cell_at ws1 r 1)) = Inr (contains ''Total'' s)"
    by (simp add: py_in_def)
  have ht: "has_total v = contains ''Total'' s"
    by (simp add: has_total_def s)
  have m1: "map_of (cells ws1) (r', c') =
      (if r' = r \<and> 1 \<le> c' \<and> c' \<le> mc then Some (cell_at ws r c') else map_of (cells ws) (r', c'))" for r' c'
    unfolding ws1_def by (auto simp: map_of_fold_ws_cell cell_at_def cs split: option.splits)
  have c1: "cell_at ws1 r' c' = cell_at ws r' c'" for r' c'
    unfolding ws1_def by (simp only: cell_at_fold_ws_cell)
  show ?thesis
  proof (cases "contains ''Total'' s")
    case True
    then have "format_row mc r ws = Returned (fold (modify_cell highlight r) cs ws1)"
      unfolding fr pin by simp
    moreover have "map_of (cells (fold (modify_cell highlight r) cs ws1)) (r', c') =
      (if r' = r \<and> 1 \<le> c' \<and> c' \<le> mc then Some (highlight (cell_at ws r c')) else map_of (cells ws) (r', c'))" for r' c'
      by (simp add: map_of_fold_modify_cell[OF cs(1)] c1 m1 cs(2))
    ultimately show ?thesis using True ht unfolding v_def by simp
  next
    case False
    then have "format_row mc r ws = Returned ws1"
      unfolding fr pin by simp
    then show ?thesis using False ht m1 unfolding v_def by simp
  qed
qed

lemma format_row_not_text:
  assumes "\<not> is_text (cvalue (cell_at ws r 1))"
  shows "format_row mc r ws = Raised TypeError (fold (ws_cell r) (py_range 1 (mc + 1)) ws)"
proof -
  have "cvalue (cell_at (fold (ws_cell r) (py_range 1 (mc + 1)) ws) r 1) = cvalue (cell_at ws r 1)"
    by (simp only: cell_at_fold_ws_cell)
  moreover have "py_in ''Total'' (cvalue (cell_at ws r 1)) = Inl TypeError"
    using assms by (auto simp: py_in_def is_text_def split: pyval.splits)
  ultimately show ?thesis
    unfolding format_row_def Let_def by simp
qed

lemma cell_at_eqI: "map_of (cells ws') (r, c) = map_of (cells ws) (r, c) \<Longrightarrow> cell_at ws' r c = cell_at ws r c"
  by (simp add: cell_at_def)

lemma format_rows_text:
  assumes "distinct rs" "\<forall>r\<in>set rs. is_text (cvalue (cell_at ws r 1))"
  shows "\<exists>ws'. format_rows mc rs ws = Returned ws' \<and>
           (\<forall>r' c'. map_of (cells ws') (r', c') =
              (if r' \<in> set rs \<and> 1 \<le> c' \<and> c' \<le> mc
               then Some (if has_total (cvalue (cell_at ws r' 1)) then highlight (cell_at ws r' c')
                          else cell_at ws r' c')
               else map_of (cells ws) (r', c')))"
  using assms
proof (induction rs arbitrary: ws)
  case Nil then show ?case by simp
next
  case (Cons r rs)
  from Cons.prems have "is_text (cvalue (cell_at ws r 1))" by simp
  from format_row_text[OF this, of mc] obtain ws1 where
    f1: "format_row mc r ws = Returned ws1" and
    m1: "\<And>r' c'. map_of (cells ws1) (r', c') =
              (if r' = r \<and> 1 \<le> c' \<and> c' \<le> mc
               then Some (if has_total (cvalue (cell_at ws r 1)) then highlight (cell_at ws r c')
                          else cell_at ws r c')
               else map_of (cells ws) (r', c'))" by blast
  have same: "cell_at ws1 r' c' = cell_at ws r' c'" if "r' \<noteq> r" for r' c'
    using that by (intro cell_at_eqI) (simp add: m1)
  have "\<forall>r'\<in>set rs. is_text (cvalue (cell_at ws1 r' 1))"
  proof
    fix r' assume r': "r' \<in> set rs"
    with Cons.prems have "r' \<noteq> r" by auto
    from same[OF this, of 1] r' Cons.prems show "is_text (cvalue (cell_at ws1 r' 1))" by simp
  qed
  with Cons.IH[of ws1] Cons.prems obtain ws' where
    f2: "format_rows mc rs ws1 = Returned ws'" and
    m2: "\<And>r' c'. map_of (cells ws') (r', c') =
              (if r' \<in> set rs \<and> 1 \<le> c' \<and> c' \<le> mc
               then Some (if has_total (cvalue (cell_at ws1 r' 1)) then highlight (cell_at ws1 r' c')
                          else cell_at ws1 r' c')
               else map_of (cells ws1) (r', c'))" by auto
  have "format_rows mc (r # rs) ws = Returned ws'" using f1 f2 by simp
  moreover have "map_of (cells ws') (r', c') =
              (if r' \<in> set (r # rs) \<and> 1 \<le> c' \<and> c' \<le> mc
               then Some (if has_total (cvalue (cell_at ws r' 1)) then highlight (cell_at ws r' c')
                          else cell_at ws r' c')
               else map_of (cells ws) (r', c'))" for r' c'
    using Cons.prems(1) by (auto simp: m2 m1 same)
  ultimately show ?case by blast
qed

lemma format_rows_raises:
  assumes "distinct rs" "\<exists>r\<in>set rs. \<not> is_text (cvalue (cell_at ws r 1))"
  shows "\<exists>w. format_rows mc rs ws = Raised TypeError w"
  using assms
proof (induction rs arbitrary: ws)
  case Nil then show ?case by simp
next
  case (Cons r rs)
  show ?case
  proof (cases "is_text (cvalue (cell_at ws r 1))")
    case False
    then show ?thesis by (simp add: format_row_not_text)
  next
    case True
    from format_row_text[OF this, of mc] obtain ws1 where
      f1: "format_row mc r ws = Returned ws1" and
      m1: "\<And>r' c'. map_of (cells ws1) (r', c') =
              (if r' = r \<and> 1 \<le> c' \<and> c' \<le> mc
               then Some (if has_total (cvalue (cell_at ws r 1)) then highlight (cell_at ws r c')
                          else cell_at ws r c')
               else map_of (cells ws) (r', c'))" by blast
    have same: "cell_at ws1 r' c' = cell_at ws r' c'" if "r' \<noteq> r" for r' c'
      using that by (intro cell_at_eqI) (simp add: m1)
    from Cons.prems True obtain r' where r': "r' \<in> set rs" "\<not> is_text (cvalue (cell_at ws r' 1))" by auto
    from r' Cons.prems(1) have "r' \<noteq> r" by auto
    from same[OF this, of 1] r'(2) have "\<not> is_text (cvalue (cell_at ws1 r' 1))" by simp
    with r'(1) have "\<exists>r\<in>set rs. \<not> is_text (cvalue (cell_at ws1 r 1))" by blast
    with Cons.IH[of ws1] Cons.prems(1) obtain w where "format_rows mc rs ws1 = Raised TypeError w" by auto
    then show ?thesis using f1 by simp
  qed
qed

lemma keys_conv: "fst ` set (cells w) = dom (map_of (cells w))"
  by (simp add: dom_map_of_conv_image_fst)

lemma cells_empty_conv: "cells w = [] \<longleftrightarrow> dom (map_of (cells w)) = {}"
  by (cases "cells w") auto

lemma max_row_dom:
  "max_row w = (if dom (map_of (cells w)) = {} then 1 else Max (fst ` dom (map_of (cells w))))"
  by (simp add: max_row_def cells_empty_conv[symmetric] keys_conv[symmetric] image_image)

lemma max_column_dom:
  "max_column w = (if dom (map_of (cells w)) = {} then 1 else Max (snd ` dom (map_of (cells w))))"
  by (simp add: max_column_def cells_empty_conv[symmetric] keys_conv[symmetric] image_image)

lemma finite_keys: "finite (dom (map_of (cells w)))"
  by (simp add: finite_dom_map_of)

lemma max_row_ge: "map_of (cells w) (r, c) = Some x \<Longrightarrow> r \<le> max_row w"
proof -
  assume a: "map_of (cells w) (r, c) = Some x"
  then have "(r, c) \<in> dom (map_of (cells w))" by blast
  then have "r \<in> fst ` dom (map_of (cells w))" by force
  moreover have "dom (map_of (cells w)) \<noteq> {}" using a by blast
  ultimately show ?thesis using finite_keys[of w] by (simp add: max_row_dom)
qed

lemma max_column_ge: "map_of (cells w) (r, c) = Some x \<Longrightarrow> c \<le> max_column w"
proof -
  assume a: "map_of (cells w) (r, c) = Some x"
  then have "(r, c) \<in> dom (map_of (cells w))" by blast
  then have "c \<in> snd ` dom (map_of (cells w))" by force
  moreover have "dom (map_of (cells w)) \<noteq> {}" using a by blast
  ultimately show ?thesis using finite_keys[of w] by (simp add: max_column_dom)
qed

lemma max_row_stable:
  assumes d: "dom (map_of (cells w')) = dom (map_of (cells w)) \<union> A"
    and le: "\<forall>k\<in>A. fst k \<le> max_row w"
    and em: "dom (map_of (cells w)) = {} \<longrightarrow> A = {}"
  shows "max_row w' = max_row w"
proof (cases "dom (map_of (cells w)) = {}")
  case True
  with d em show ?thesis by (simp add: max_row_dom)
next
  case False
  let ?K = "dom (map_of (cells w))"
  have ne: "dom (map_of (cells w')) \<noteq> {}" using d False by auto
  have m: "max_row w = Max (fst ` ?K)" using False by (simp add: max_row_dom)
  have "Max (fst ` dom (map_of (cells w'))) = Max (fst ` ?K)"
  proof (rule Max_eqI)
    show "finite (fst ` dom (map_of (cells w')))" using finite_keys by blast
    have "finite (fst ` ?K)" "fst ` ?K \<noteq> {}" using finite_keys[of w] False by blast+
    then have "Max (fst ` ?K) \<in> fst ` ?K" by (rule Max_in)
    then show "Max (fst ` ?K) \<in> fst ` dom (map_of (cells w'))" unfolding d by blast
    fix y assume "y \<in> fst ` dom (map_of (cells w'))"
    then consider "y \<in> fst ` ?K" | "y \<in> fst ` A" using d by auto
    then show "y \<le> Max (fst ` ?K)"
    proof cases
      case 1 then show ?thesis using finite_keys[of w] by simp
    next
      case 2 then show ?thesis using le m by auto
    qed
  qed
  with ne m show ?thesis by (simp add: max_row_dom)
qed

lemma max_column_stable:
  assumes d: "dom (map_of (cells w')) = dom (map_of (cells w)) \<union> A"
    and le: "\<forall>k\<in>A. snd k \<le> max_column w"
    and em: "dom (map_of (cells w)) = {} \<longrightarrow> A = {}"
  shows "max_column w' = max_column w"
proof (cases "dom (map_of (cells w)) = {}")
  case True
  with d em show ?thesis by (simp add: max_column_dom)
next
  case False
  let ?K = "dom (map_of (cells w))"
  have ne: "dom (map_of (cells w')) \<noteq> {}" using d False by auto
  have m: "max_column w = Max (snd ` ?K)" using False by (simp add: max_column_dom)
  have "Max (snd ` dom (map_of (cells w'))) = Max (snd ` ?K)"
  proof (rule Max_eqI)
    show "finite (snd ` dom (map_of (cells w')))" using finite_keys by blast
    have "finite (snd ` ?K)" "snd ` ?K \<noteq> {}" using finite_keys[of w] False by blast+
    then have "Max (snd ` ?K) \<in> snd ` ?K" by (rule Max_in)
    then show "Max (snd ` ?K) \<in> snd ` dom (map_of (cells w'))" unfolding d by blast
    fix y assume "y \<in> snd ` dom (map_of (cells w'))"
    then consider "y \<in> snd ` ?K" | "y \<in> snd ` A" using d by auto
    then show "y \<le> Max (snd ` ?K)"
    proof cases
      case 1 then show ?thesis using finite_keys[of w] by simp
    next
      case 2 then show ?thesis using le m by auto
    qed
  qed
  with ne m show ?thesis by (simp add: max_column_dom)
qed

lemma ws_cell_noop: "map_of (cells w) (r, c) = Some x \<Longrightarrow> ws_cell r c w = w"
  by (simp add: ws_cell_def)

lemma fold_ws_cell_row_noop:
  "\<forall>c\<in>set cs. \<exists>x. map_of (cells w) (r, c) = Some x \<Longrightarrow> fold (ws_cell r) cs w = w"
  by (induction cs) (auto simp: ws_cell_noop)

lemma modify_cell_noop: "map_of (cells w) (r, c) = Some x \<Longrightarrow> f x = x \<Longrightarrow> modify_cell f r c w = w"
  by (simp add: modify_cell_def cell_at_def update_triv)

lemma fold_modify_cell_row_noop:
  "\<forall>c\<in>set cs. \<exists>x. map_of (cells w) (r, c) = Some x \<and> f x = x \<Longrightarrow> fold (modify_cell f r) cs w = w"
  by (induction cs) (auto simp: modify_cell_noop)

lemma highlight_idem: "highlight (highlight x) = highlight x"
  by (simp add: highlight_def)

lemma cvalue_highlight: "cvalue (highlight x) = cvalue x"
  by (simp add: highlight_def)

lemma format_row_noop:
  assumes ex: "\<forall>c. 1 \<le> c \<and> c \<le> mc \<longrightarrow>
            (\<exists>x. map_of (cells w) (r, c) = Some x \<and> (has_total (cvalue (cell_at w r 1)) \<longrightarrow> highlight x = x))"
    and tx: "is_text (cvalue (cell_at w r 1))"
  shows "format_row mc r w = Returned w"
proof -
  define cs where "cs = py_range 1 (mc + 1)"
  define v where "v = cvalue (cell_at w r 1)"
  have cs: "\<And>c. c \<in> set cs \<longleftrightarrow> 1 \<le> c \<and> c \<le> mc" by (auto simp: cs_def)
  from tx obtain s where s: "v = PStr s"
    by (auto simp: is_text_def v_def split: pyval.splits)
  have f1: "fold (ws_cell r) cs w = w"
    using ex by (intro fold_ws_cell_row_noop) (auto simp: cs)
  have fr: "format_row mc r w =
     (case py_in ''Total'' v of
           Inl e \<Rightarrow> Raised e w
         | Inr True \<Rightarrow> Returned (fold (modify_cell highlight r) cs w)
         | Inr False \<Rightarrow> Returned w)"
    unfolding format_row_def Let_def cs_def[symmetric] f1 v_def ..
  have pin: "py_in ''Total'' v = Inr (contains ''Total'' s)" by (simp add: py_in_def s)
  have ht: "has_total v = contains ''Total'' s" by (simp add: has_total_def s)
  show ?thesis
  proof (cases "contains ''Total'' s")
    case True
    with ht ex have "\<forall>c\<in>set cs. \<exists>x. map_of (cells w) (r, c) = Some x \<and> highlight x = x"
      unfolding v_def by (auto simp: cs)
    then have "fold (modify_cell highlight r) cs w = w" by (rule fold_modify_cell_row_noop)
    with True show ?thesis unfolding fr pin by simp
  next
    case False then show ?thesis unfolding fr pin by simp
  qed
qed

lemma format_rows_noop:
  assumes "\<forall>r\<in>set rs. is_text (cvalue (cell_at w r 1)) \<and> (\<forall>c. 1 \<le> c \<and> c \<le> mc \<longrightarrow>
            (\<exists>x. map_of (cells w) (r, c) = Some x \<and> (has_total (cvalue (cell_at w r 1)) \<longrightarrow> highlight x = x)))"
  shows "format_rows mc rs w = Returned w"
  using assms by (induction rs) (auto simp: format_row_noop)

section \<open>Properties of format\_totals\<close>

lemma format_totals_text:
  assumes "\<forall>r. 2 \<le> r \<and> r \<le> max_row ws \<longrightarrow> is_text (cvalue (cell_at ws r 1))"
  shows "\<exists>ws'. format_totals ws = Returned ws' \<and>
           (\<forall>r c. map_of (cells ws') (r, c) =
              (if 2 \<le> r \<and> r \<le> max_row ws \<and> 1 \<le> c \<and> c \<le> max_column ws
               then Some (if has_total (cvalue (cell_at ws r 1)) then highlight (cell_at ws r c)
                          else cell_at ws r c)
               else map_of (cells ws) (r, c)))"
proof -
  define rs where "rs = py_range 2 (max_row ws + 1)"
  have rs: "distinct rs" "\<And>r. r \<in> set rs \<longleftrightarrow> 2 \<le> r \<and> r \<le> max_row ws"
    by (auto simp: rs_def)
  have "\<forall>r\<in>set rs. is_text (cvalue (cell_at ws r 1))" using assms rs(2) by blast
  from format_rows_text[OF rs(1) this, of "max_column ws"]
  show ?thesis unfolding format_totals_def rs_def[symmetric] by (simp add: rs(2))
qed

lemma format_totals_not_text:
  assumes "2 \<le> r" "r \<le> max_row ws" "\<not> is_text (cvalue (cell_at ws r 1))"
  shows "\<exists>w. format_totals ws = Raised TypeError w"
proof -
  define rs where "rs = py_range 2 (max_row ws + 1)"
  have rs: "distinct rs" "\<And>r. r \<in> set rs \<longleftrightarrow> 2 \<le> r \<and> r \<le> max_row ws"
    by (auto simp: rs_def)
  have "\<exists>r\<in>set rs. \<not> is_text (cvalue (cell_at ws r 1))" using assms rs(2) by blast
  from format_rows_raises[OF rs(1) this, of "max_column ws"]
  show ?thesis unfolding format_totals_def rs_def[symmetric] .
qed

lemma cell_at_new: "map_of (cells w) (r, c) = Some x \<Longrightarrow> cell_at w r c = x"
  by (simp add: cell_at_def)

lemma max_row_totals_sheet: "max_row totals_sheet = 3"
  by (simp add: max_row_def totals_sheet_def)

lemma totals_sheet_text:
  "\<forall>r. 2 \<le> r \<and> r \<le> max_row totals_sheet \<longrightarrow> is_text (cvalue (cell_at totals_sheet r 1))"
proof (intro allI impI)
  fix r assume "2 \<le> r \<and> r \<le> max_row totals_sheet"
  then have "r = 2 \<or> r = 3" unfolding max_row_totals_sheet by arith
  then show "is_text (cvalue (cell_at totals_sheet r 1))"
    by (auto simp: totals_sheet_def cell_at_def new_cell_def is_text_def)
qed

text \<open>
  Claim C9. When the first cell of some data row holds anything but text (a number, a
  boolean, a date, an empty cell), \<open>format_totals\<close> raises \<^verbatim>\<open>TypeError\<close>: the substring
  test is applied to the value as it is.
\<close>

theorem format_totals_type_error:
  assumes "2 \<le> r" "r \<le> max_row ws" "\<forall>s. cvalue (cell_at ws r 1) \<noteq> PStr s"
  shows "\<exists>w. format_totals ws = Raised TypeError w"
proof -
  from assms(3) have "\<not> is_text (cvalue (cell_at ws r 1))"
    by (auto simp: is_text_def split: pyval.splits)
  from format_totals_not_text[OF assms(1,2) this] show ?thesis .
qed

theorem format_totals_type_error_witness:
  "(2::nat) \<le> 2 \<and> 2 \<le> max_row amounts_sheet
   \<and> (\<forall>s. cvalue (cell_at amounts_sheet 2 1) \<noteq> PStr s)
   \<and> (\<exists>w. format_totals amounts_sheet = Raised TypeError w)"
proof -
  have a: "(2::nat) \<le> 2" by simp
  have b: "2 \<le> max_row amounts_sheet"
    by (simp add: max_row_def amounts_sheet_def)
  have c: "\<forall>s. cvalue (cell_at amounts_sheet 2 1) \<noteq> PStr s"
    by (simp add: amounts_sheet_def cell_at_def new_cell_def)
  from format_totals_type_error[OF a b c] a b c show ?thesis by blast
qed

text \<open>
  Claim C8. \<open>format_totals\<close> is idempotent: on the worksheet that a successful run
  returns, a second run succeeds and returns that same worksheet, so every cell has the
  font and fill that the first run gave it.
\<close>

theorem format_totals_idempotent:
  assumes "format_totals ws = Returned ws'"
  shows "format_totals ws' = Returned ws'"
proof -
  have tx: "\<forall>r. 2 \<le> r \<and> r \<le> max_row ws \<longrightarrow> is_text (cvalue (cell_at ws r 1))"
  proof (rule ccontr)
    assume "\<not> ?thesis"
    then obtain r where "2 \<le> r" "r \<le> max_row ws" "\<not> is_text (cvalue (cell_at ws r 1))" by blast
    from format_totals_not_text[OF this] assms show False by auto
  qed
  from format_totals_text[OF tx] assms have
    m: "\<And>r c. map_of (cells ws') (r, c) =
              (if 2 \<le> r \<and> r \<le> max_row ws \<and> 1 \<le> c \<and> c \<le> max_column ws
               then Some (if has_total (cvalue (cell_at ws r 1)) then highlight (cell_at ws r c)
                          else cell_at ws r c)
               else map_of (cells ws) (r, c))" by auto
  define A where "A = {k. 2 \<le> fst k \<and> fst k \<le> max_row ws \<and> 1 \<le> snd k \<and> snd k \<le> max_column ws}"
  have d: "dom (map_of (cells ws')) = dom (map_of (cells ws)) \<union> A"
  proof (rule set_eqI)
    fix k :: "nat \<times> nat"
    obtain r c where k: "k = (r, c)" by (cases k)
    show "k \<in> dom (map_of (cells ws')) \<longleftrightarrow> k \<in> dom (map_of (cells ws)) \<union> A"
      unfolding k A_def by (auto simp: m dom_def)
  qed
  have em: "dom (map_of (cells ws)) = {} \<longrightarrow> A = {}"
    by (auto simp: max_row_dom A_def)
  have mr: "max_row ws' = max_row ws"
    by (rule max_row_stable[OF d _ em]) (simp add: A_def)
  have mc: "max_column ws' = max_column ws"
    by (rule max_column_stable[OF d _ em]) (simp add: A_def)
  have v1: "cvalue (cell_at ws' r 1) = cvalue (cell_at ws r 1)" for r
    using m[of r 1] by (auto simp: cell_at_def cvalue_highlight)
  have "format_rows (max_column ws) (py_range 2 (max_row ws + 1)) ws' = Returned ws'"
  proof (rule format_rows_noop, intro ballI conjI allI impI)
    fix r assume "r \<in> set (py_range 2 (max_row ws + 1))"
    then have r: "2 \<le> r" "r \<le> max_row ws" by auto
    show "is_text (cvalue (cell_at ws' r 1))" using tx r by (simp only: v1)
    fix c assume c: "1 \<le> c \<and> c \<le> max_column ws"
    show "\<exists>x. map_of (cells ws') (r, c) = Some x \<and>
             (has_total (cvalue (cell_at ws' r 1)) \<longrightarrow> highlight x = x)"
      unfolding v1 using r c by (simp add: m highlight_idem)
  qed
  then show ?thesis unfolding format_totals_def mr mc .
qed

theorem format_totals_idempotent_witness:
  "\<exists>ws'. format_totals totals_sheet = Returned ws' \<and> format_totals ws' = Returned ws'"
proof -
  from format_totals_text[OF totals_sheet_text] obtain ws' where
    f: "format_totals totals_sheet = Returned ws'" by blast
  from format_totals_idempotent[OF f] f show ?thesis by blast
qed

section \<open>Properties of the save loop\<close>

lemma save_loop_retries:
  "(\<forall>i<m. save (n + i) = Some PermissionError \<and> input (n + i) = Some ''y'') \<Longrightarrow>
   save_loop save input n out = save_loop save input (n + m) (out @ replicate m prompt)"
proof (induction m arbitrary: n out)
  case 0 then show ?case by simp
next
  case (Suc m)
  from Suc.prems[rule_format, of 0]
  have l: "save n = Some PermissionError" "input n = Some ''y''" by simp_all
  have "\<forall>i<m. save (Suc n + i) = Some PermissionError \<and> input (Suc n + i) = Some ''y''"
    using Suc.prems[rule_format, of "Suc i" for i] by simp
  from Suc.IH[OF this, of "out @ [prompt]"] l show ?case
    by (subst save_loop.simps) (simp add: replicate_app_Cons_same)
qed

lemma ends_at_retry:
  "save n = Some PermissionError \<Longrightarrow> input n = Some ''y'' \<Longrightarrow> \<not> ends_at save input n out r"
  by (simp add: ends_at_def)

lemma save_loop_ends_at:
  assumes "\<not> (save n = Some PermissionError \<and> input n = Some ''y'')"
  shows "save_loop save input n out = Some r \<longleftrightarrow> ends_at save input n out r"
proof (cases "save n")
  case None
  then show ?thesis by (subst save_loop.simps) (auto simp: ends_at_def)
next
  case (Some e)
  show ?thesis
  proof (cases "e = PermissionError")
    case False
    with Some show ?thesis by (subst save_loop.simps) (auto simp: ends_at_def)
  next
    case True
    show ?thesis
    proof (cases "input n")
      case None
      with Some True show ?thesis by (subst save_loop.simps) (auto simp: ends_at_def)
    next
      case (Some line)
      with assms \<open>save n = Some e\<close> True have "line \<noteq> ''y''" by simp
      with Some \<open>save n = Some e\<close> True show ?thesis
        by (subst save_loop.simps) (auto simp: ends_at_def)
    qed
  qed
qed

lemma save_loop_Some:
  assumes "save_loop save input n out = Some r"
  shows "\<exists>m. (\<forall>i<m. save (n + i) = Some PermissionError \<and> input (n + i) = Some ''y'')
            \<and> ends_at save input (n + m) (out @ replicate m prompt) r"
proof -
  let ?P = "\<lambda>save input n out r.
    \<exists>m. (\<forall>i<m. save (n + i) = Some PermissionError \<and> input (n + i) = Some ''y'')
         \<and> ends_at save input (n + m) (out @ replicate m prompt) r"
  have "?P save input n out r"
  proof (rule save_loop.raw_induct[where P = ?P, OF _ assms])
    fix save_loop' :: "(nat \<Rightarrow> error option) \<Rightarrow> (nat \<Rightarrow> string option) \<Rightarrow> nat \<Rightarrow> string list
      \<Rightarrow> (string list \<times> bool) outcome option"
    fix save :: "nat \<Rightarrow> error option" and input :: "nat \<Rightarrow> string option" and n :: nat
      and out :: "string list" and r :: "(string list \<times> bool) outcome"
    assume IH: "\<And>save input n out r.
      save_loop' save input n out = Some r \<Longrightarrow> ?P save input n out r"
    assume body: "(case save n of
        None \<Rightarrow> Some (Returned (out @ [''File saved''], True))
      | Some e \<Rightarrow>
          if e = PermissionError
          then case input n of
                 None \<Rightarrow> Some (Raised EOFError (out @ [prompt], False))
               | Some line \<Rightarrow>
                   if line \<noteq> ''y''
                   then Some (Returned (out @ [prompt, ''File not saved''], False))
                   else save_loop' save input (Suc n) (out @ [prompt])
          else Some (Raised e (out, False))) = Some r"
    show "?P save input n out r"
    proof (cases "save n = Some PermissionError \<and> input n = Some ''y''")
      case False
      have "ends_at save input n out r"
      proof (cases "save n")
        case None
        with body show ?thesis by (auto simp: ends_at_def)
      next
        case (Some e)
        show ?thesis
        proof (cases "e = PermissionError")
          case neq: False
          with Some body show ?thesis by (auto simp: ends_at_def)
        next
          case eq: True
          show ?thesis
          proof (cases "input n")
            case None
            with Some eq body show ?thesis by (auto simp: ends_at_def)
          next
            case (Some line)
            with False \<open>save n = Some e\<close> eq have "line \<noteq> ''y''" by simp
            with Some \<open>save n = Some e\<close> eq body show ?thesis by (auto simp: ends_at_def)
          qed
        qed
      qed
      then show ?thesis by (intro exI[of _ 0]) simp
    next
      case True
      with body have "save_loop' save input (Suc n) (out @ [prompt]) = Some r" by simp
      from IH[OF this] obtain m where
        a: "\<forall>i<m. save (Suc n + i) = Some PermissionError \<and> input (Suc n + i) = Some ''y''" and
        b: "ends_at save input (Suc n + m) ((out @ [prompt]) @ replicate m prompt) r" by blast
      have "\<forall>i<Suc m. save (n + i) = Some PermissionError \<and> input (n + i) = Some ''y''"
      proof (intro allI impI)
        fix i assume "i < Suc m"
        then show "save (n + i) = Some PermissionError \<and> input (n + i) = Some ''y''"
          using a[rule_format, of "i - 1"] True by (cases i) auto
      qed
      moreover from b have "ends_at save input (n + Suc m) (out @ replicate (Suc m) prompt) r"
        by simp
      ultimately show ?thesis by blast
    qed
  qed
  then show ?thesis .
qed

text \<open>
  Claim C7, counterexample. When \<^verbatim>\<open>wb.save\<close> fails otherwise than on a locked file (say the
  target is a directory: an \<^verbatim>\<open>OSError\<close> that is no \<^verbatim>\<open>PermissionError\<close>), the handler
  does not apply: the loop ends with that exception, with nothing printed and nothing
  saved. That is a third way out, next to the two notices.
\<close>

theorem save_loop_other_exit:
  "save_loop (\<lambda>i. Some OSError) (\<lambda>i. Some ''y'') 0 [] = Some (Raised OSError ([], False))"
  by (simp add: save_loop.simps)

text \<open>
  Claim C7, amended. The save loop ends exactly in the following ways. After \<open>n\<close> attempts
  that each met a locked file and were each answered with \<^verbatim>\<open>y\<close> (one prompt printed per
  attempt), attempt \<open>n\<close> either saves the file, and \<^verbatim>\<open>File saved\<close> is printed; or meets a
  locked file and an answer other than \<^verbatim>\<open>y\<close>, and \<^verbatim>\<open>File not saved\<close> is printed with no
  file written; or meets a locked file and the end of the input, and the \<^verbatim>\<open>EOFError\<close> of
  \<^verbatim>\<open>input\<close> leaves the loop after the prompt, with neither notice; or fails otherwise than
  on a locked file, and that exception leaves the loop, with neither notice. The first two
  are the only ways in which the loop returns normally, and whenever there is such an \<open>n\<close>
  the loop does end.
\<close>

theorem save_loop_exits:
  "save_loop save input 0 [] = Some r \<longleftrightarrow>
     (\<exists>n. (\<forall>i<n. save i = Some PermissionError \<and> input i = Some ''y'') \<and>
          (save n = None \<and> r = Returned (replicate n prompt @ [''File saved''], True)
           \<or> save n = Some PermissionError \<and> (\<exists>line. input n = Some line \<and> line \<noteq> ''y'')
              \<and> r = Returned (replicate (Suc n) prompt @ [''File not saved''], False)
           \<or> save n = Some PermissionError \<and> input n = None
              \<and> r = Raised EOFError (replicate (Suc n) prompt, False)
           \<or> (\<exists>e. save n = Some e \<and> e \<noteq> PermissionError
                 \<and> r = Raised e (replicate n prompt, False))))"
proof -
  have e: "ends_at save input n (replicate n prompt) r \<longleftrightarrow>
          (save n = None \<and> r = Returned (replicate n prompt @ [''File saved''], True)
           \<or> save n = Some PermissionError \<and> (\<exists>line. input n = Some line \<and> line \<noteq> ''y'')
              \<and> r = Returned (replicate (Suc n) prompt @ [''File not saved''], False)
           \<or> save n = Some PermissionError \<and> input n = None
              \<and> r = Raised EOFError (replicate (Suc n) prompt, False)
           \<or> (\<exists>e. save n = Some e \<and> e \<noteq> PermissionError
                 \<and> r = Raised e (replicate n prompt, False)))" for n
    by (simp add: ends_at_def replicate_append_same replicate_app_Cons_same)
  have "save_loop save input 0 [] = Some r \<longleftrightarrow>
     (\<exists>n. (\<forall>i<n. save i = Some PermissionError \<and> input i = Some ''y'')
          \<and> ends_at save input n (replicate n prompt) r)"
  proof
    assume "save_loop save input 0 [] = Some r"
    from save_loop_Some[OF this] show "\<exists>n. (\<forall>i<n. save i = Some PermissionError \<and> input i = Some ''y'')
          \<and> ends_at save input n (replicate n prompt) r" by simp
  next
    assume "\<exists>n. (\<forall>i<n. save i = Some PermissionError \<and> input i = Some ''y'')
          \<and> ends_at save input n (replicate n prompt) r"
    then obtain n where
      a: "\<forall>i<n. save (0 + i) = Some PermissionError \<and> input (0 + i) = Some ''y''" and
      b: "ends_at save input n (replicate n prompt) r" by auto
    from b have c: "\<not> (save n = Some PermissionError \<and> input n = Some ''y'')"
      using ends_at_retry[of save n input] by blast
    from save_loop_retries[OF a, of "[]"] save_loop_ends_at[of save n input "replicate n prompt" r, OF c] b
    show "save_loop save input 0 [] = Some r" by simp
  qed
  then show ?thesis unfolding e .
qed

theorem save_loop_exits_witness:
  "save_loop (\<lambda>i. if i < 2 then Some PermissionError else None) (\<lambda>i. Some ''y'') 0 []
     = Some (Returned ([prompt, prompt, ''File saved''], True))
   \<and> save_loop (\<lambda>i. Some PermissionError) (\<lambda>i. if i < 1 then Some ''y'' else Some ''n'') 0 []
     = Some (Returned ([prompt, prompt, ''File not saved''], False))
   \<and> save_loop (\<lambda>i. Some PermissionError) (\<lambda>i. if i < 1 then Some ''y'' else None) 0 []
     = Some (Raised EOFError ([prompt, prompt], False))"
proof -
  let ?save = "\<lambda>i::nat. if i < 2 then Some PermissionError else None"
  let ?input = "\<lambda>i::nat. Some ''y''"
  let ?r = "Returned ([prompt, prompt, ''File saved''], True)"
  have 1: "save_loop ?save ?input 0 [] = Some ?r"
    by (rule save_loop_exits[of ?save ?input ?r, THEN iffD2], rule exI[of _ 2])
       (simp add: numeral_2_eq_2)
  let ?save2 = "\<lambda>i::nat. Some PermissionError"
  let ?input2 = "\<lambda>i::nat. if i < 1 then Some ''y'' else Some ''n''"
  let ?r2 = "Returned ([prompt, prompt, ''File not saved''], False)"
  have 2: "save_loop ?save2 ?input2 0 [] = Some ?r2"
    by (rule save_loop_exits[of ?save2 ?input2 ?r2, THEN iffD2], rule exI[of _ 1]) simp
  let ?input3 = "\<lambda>i::nat. if i < 1 then Some ''y'' else None"
  let ?r3 = "Raised EOFError ([prompt, prompt], False)"
  have 3: "save_loop ?save2 ?input3 0 [] = Some ?r3"
    by (rule save_loop_exits[of ?save2 ?input3 ?r3, THEN iffD2], rule exI[of _ 1]) simp
  from 1 2 3 show ?thesis by (intro conjI)
qed

section \<open>Properties of the directive loop\<close>

lemma positions_mem: "i \<in> set (positions cols k) \<longleftrightarrow> i < length cols \<and> cols ! i = k"
  by (auto simp: positions_def)

lemma positions_Nil: "positions cols k = [] \<longleftrightarrow> k \<notin> set cols"
  by (auto simp: positions_def filter_empty_conv in_set_conv_nth)

lemma distinct_positions: "distinct (positions cols k)"
  by (simp add: positions_def)

lemma positions_singleD: "positions cols k = [i] \<Longrightarrow> i < length cols \<and> cols ! i = k"
  using positions_mem[of i cols k] by simp

lemma positions_single:
  assumes "distinct cols" "i < length cols"
  shows "positions cols (cols ! i) = [i]"
proof -
  have s: "set (positions cols (cols ! i)) = {i}"
    using assms by (auto simp: positions_mem nth_eq_iff_index_eq)
  show ?thesis
  proof (cases "positions cols (cols ! i)")
    case Nil with s show ?thesis by simp
  next
    case (Cons a as)
    with s have a: "a = i" by auto
    have "as = []"
    proof (cases as)
      case (Cons b bs)
      with \<open>positions cols (cols ! i) = a # as\<close> s have "b = i" by auto
      with a Cons \<open>positions cols (cols ! i) = a # as\<close> distinct_positions[of cols "cols ! i"]
      show ?thesis by simp
    qed simp
    with a Cons show ?thesis by simp
  qed
qed

lemma format_columns_append:
  "format_columns (pre @ rest) s =
     (case format_columns pre s of
        Returned s' \<Rightarrow> format_columns rest s'
      | Raised e s' \<Rightarrow> Raised e s')"
  by (induction pre s rule: format_columns.induct) (simp_all split: outcome.splits)

lemma format_column_frame:
  assumes "format_column col f (df, cur) = Returned (df', cur') \<or> format_column col f (df, cur) = Raised e (df', cur')"
  shows "columns df' = columns df \<and> nrows df' = nrows df \<and> length (data df') = length (data df)"
  using assms
  by (auto simp: format_column_def split: if_splits list.splits series.splits sum.splits)

lemma format_columns_frame:
  assumes "format_columns fc (df, cur) = Returned (df', cur') \<or> format_columns fc (df, cur) = Raised e (df', cur')"
  shows "columns df' = columns df \<and> nrows df' = nrows df \<and> length (data df') = length (data df)"
  using assms
proof (induction fc arbitrary: df cur)
  case Nil then show ?case by auto
next
  case (Cons p fc)
  obtain col f where p: "p = (col, f)" by (cases p)
  show ?case
  proof (cases "format_column col f (df, cur)")
    case (Raised e1 s1)
    obtain df1 cur1 where s1: "s1 = (df1, cur1)" by (cases s1)
    from Cons.prems p Raised s1 have "df' = df1" by auto
    with format_column_frame[of col f df cur df1 cur1 e1] Raised s1 show ?thesis by simp
  next
    case (Returned s1)
    obtain df1 cur1 where s1: "s1 = (df1, cur1)" by (cases s1)
    from format_column_frame[of col f df cur df1 cur1] Returned s1
    have 1: "columns df1 = columns df \<and> nrows df1 = nrows df \<and> length (data df1) = length (data df)" by simp
    from Cons.prems p Returned s1 have "format_columns fc (df1, cur1) = Returned (df', cur')
       \<or> format_columns fc (df1, cur1) = Raised e (df', cur')" by simp
    from Cons.IH[OF this] 1 show ?thesis by simp
  qed
qed

lemma format_column_key_error:
  "format_column col f s = Raised (KeyError k) s' \<longleftrightarrow>
     (f = ''date'' \<or> f = ''currency'') \<and> col \<notin> set (columns (fst s)) \<and> k = col \<and> s' = s"
  by (cases s)
     (auto simp: format_column_def get_column_letter_def positions_Nil[symmetric]
           split: if_splits list.splits series.splits sum.splits)

lemma format_columns_key_error:
  assumes "format_columns fc s = Raised (KeyError k) s'"
  shows "\<exists>f. (k, f) \<in> set fc \<and> (f = ''date'' \<or> f = ''currency'') \<and> k \<notin> set (columns (fst s))"
  using assms
proof (induction fc arbitrary: s)
  case Nil then show ?case by simp
next
  case (Cons p fc)
  obtain col f where p: "p = (col, f)" by (cases p)
  show ?case
  proof (cases "format_column col f s")
    case (Raised e1 s1)
    with Cons.prems p have "format_column col f s = Raised (KeyError k) s'" by simp
    then show ?thesis using p by (auto simp: format_column_key_error)
  next
    case (Returned s1)
    with Cons.prems p have "format_columns fc s1 = Raised (KeyError k) s'" by simp
    from Cons.IH[OF this] obtain f' where
      f': "(k, f') \<in> set fc" "f' = ''date'' \<or> f' = ''currency''" "k \<notin> set (columns (fst s1))" by blast
    have "columns (fst s1) = columns (fst s)"
      using format_column_frame[of col f "fst s" "snd s" "fst s1" "snd s1"] Returned by simp
    with f' show ?thesis by auto
  qed
qed

lemma format_columns_missing_first:
  assumes "k \<notin> set (columns (fst s))" "f = ''date'' \<or> f = ''currency''"
  shows "format_columns ((k, f) # rest) s = Raised (KeyError k) s"
proof -
  have "format_column k f s = Raised (KeyError k) s"
    using assms by (simp add: format_column_key_error)
  then show ?thesis by simp
qed

lemma get_column_letter_ok: "1 \<le> n \<Longrightarrow> n \<le> 18278 \<Longrightarrow> get_column_letter n = Inr (col_letters n)"
  by (simp add: get_column_letter_def)

lemma title_amount: "str_title ''amount'' = ''Amount''"
  by code_simp

lemma create_workbook_format_raised:
  "format_columns fc (df\<lparr>columns := map str_title (columns df)\<rparr>, []) = Raised e (df2, cur)
   \<Longrightarrow> create_workbook ws df fc = Raised e (ws, df2)"
  by (simp add: create_workbook_def)

lemma adjust_columns_error: "adjust_columns cols ws = Raised e w \<Longrightarrow> e = ValueError"
  by (induction cols arbitrary: ws)
     (auto simp: get_column_letter_def split: sum.splits if_splits)

lemma add_table_Raised: "add_table tab ws = Raised e w \<Longrightarrow> e = ValueError \<and> w = ws"
  by (auto simp: add_table_def split: if_splits)

lemma add_table_Returned: "add_table tab ws = Returned w \<Longrightarrow> w = ws\<lparr>tables := tables ws @ [tab]\<rparr>"
  by (auto simp: add_table_def split: if_splits)

lemma get_column_letter_Inl: "get_column_letter n = Inl e \<Longrightarrow> e = ValueError"
  by (auto simp: get_column_letter_def split: if_splits)

text \<open>The stages of \<open>create_workbook\<close> after the loop over the directives.\<close>

lemma create_workbook_stages:
  assumes "format_columns fc (df\<lparr>columns := map str_title (columns df)\<rparr>, []) = Returned (df2, cur)"
  shows "create_workbook ws df fc =
    (case get_column_letter (max_column (fold append (dataframe_to_rows df2) ws)) of
       Inl e \<Rightarrow> Raised e (fold append (dataframe_to_rows df2) ws, df2)
     | Inr letter \<Rightarrow>
        (case add_table \<lparr>displayName = title (fold append (dataframe_to_rows df2) ws),
                         ref = ''A1:'' @ letter @ dec (nrows df2 + 1),
                         headerRowCount = 1, totalsRowCount = 0, tableStyleInfo = style\<rparr>
                (fold append (dataframe_to_rows df2) ws) of
           Raised e ws2 \<Rightarrow> Raised e (ws2, df2)
         | Returned ws2 \<Rightarrow>
            (case adjust_columns (py_range 1 (max_column (fold format_currency cur ws2) + 1))
                    (fold format_currency cur ws2) of
               Raised e ws4 \<Rightarrow> Raised e (ws4, df2)
             | Returned ws4 \<Rightarrow> Returned (ws4, df2))))"
  unfolding create_workbook_def Let_def assms by simp

lemma create_workbook_raised_cases:
  assumes "create_workbook ws df fc = Raised e s"
  shows "(\<exists>df2 cur. format_columns fc (df\<lparr>columns := map str_title (columns df)\<rparr>, []) = Raised e (df2, cur)
            \<and> s = (ws, df2))
         \<or> e = ValueError"
proof (cases "format_columns fc (df\<lparr>columns := map str_title (columns df)\<rparr>, [])")
  case (Raised e1 s1)
  obtain df2 cur where s1: "s1 = (df2, cur)" by (cases s1)
  from create_workbook_format_raised[OF Raised[unfolded s1], of ws] assms Raised s1
  show ?thesis by simp
next
  case (Returned s1)
  obtain df2 cur where s1: "s1 = (df2, cur)" by (cases s1)
  note st = create_workbook_stages[OF Returned[unfolded s1], of ws]
  let ?ws1 = "fold append (dataframe_to_rows df2) ws"
  show ?thesis
  proof (cases "get_column_letter (max_column ?ws1)")
    case (Inl e1)
    with st assms get_column_letter_Inl[OF Inl] show ?thesis by simp
  next
    case (Inr letter)
    let ?tab = "\<lparr>displayName = title ?ws1, ref = ''A1:'' @ letter @ dec (nrows df2 + 1),
                         headerRowCount = 1, totalsRowCount = 0, tableStyleInfo = style\<rparr>"
    show ?thesis
    proof (cases "add_table ?tab ?ws1")
      case (Raised e2 w2)
      with st Inr assms add_table_Raised[OF Raised] show ?thesis by simp
    next
      case (Returned ws2)
      let ?ws3 = "fold format_currency cur ws2"
      show ?thesis
      proof (cases "adjust_columns (py_range 1 (max_column ?ws3 + 1)) ?ws3")
        case (Raised e3 w3)
        with st Inr Returned assms adjust_columns_error[OF Raised] show ?thesis by simp
      next
        case r4: (Returned ws4)
        with st Inr Returned assms show ?thesis by simp
      qed
    qed
  qed
qed

lemma create_workbook_Returned_D:
  assumes "create_workbook ws df fc = Returned (ws', df')"
  shows "\<exists>cur tabs. format_columns fc (df\<lparr>columns := map str_title (columns df)\<rparr>, []) = Returned (df', cur)
     \<and> adjust_columns
          (py_range 1 (max_column (fold format_currency cur
                ((fold append (dataframe_to_rows df') ws)\<lparr>tables := tabs\<rparr>)) + 1))
          (fold format_currency cur ((fold append (dataframe_to_rows df') ws)\<lparr>tables := tabs\<rparr>))
        = Returned ws'"
proof (cases "format_columns fc (df\<lparr>columns := map str_title (columns df)\<rparr>, [])")
  case (Raised e1 s1)
  obtain df2 cur where s1: "s1 = (df2, cur)" by (cases s1)
  from create_workbook_format_raised[OF Raised[unfolded s1], of ws] assms
  show ?thesis by simp
next
  case (Returned s1)
  obtain df2 cur where s1: "s1 = (df2, cur)" by (cases s1)
  note st = create_workbook_stages[OF Returned[unfolded s1], of ws]
  let ?ws1 = "fold append (dataframe_to_rows df2) ws"
  show ?thesis
  proof (cases "get_column_letter (max_column ?ws1)")
    case (Inl e1)
    with st assms show ?thesis by simp
  next
    case (Inr letter)
    let ?tab = "\<lparr>displayName = title ?ws1, ref = ''A1:'' @ letter @ dec (nrows df2 + 1),
                         headerRowCount = 1, totalsRowCount = 0, tableStyleInfo = style\<rparr>"
    show ?thesis
    proof (cases "add_table ?tab ?ws1")
      case (Raised e2 w2)
      with st Inr assms show ?thesis by simp
    next
      case r2: (Returned ws2)
      let ?ws3 = "fold format_currency cur ws2"
      show ?thesis
      proof (cases "adjust_columns (py_range 1 (max_column ?ws3 + 1)) ?ws3")
        case (Raised e3 w3)
        with st Inr r2 assms show ?thesis by simp
      next
        case r4: (Returned ws4)
        with st Inr r2 assms have eq: "ws4 = ws'" "df2 = df'" by simp_all
        from add_table_Returned[OF r2] have "ws2 = ?ws1\<lparr>tables := tables ?ws1 @ [?tab]\<rparr>" .
        with r4 eq Returned s1 show ?thesis by blast
      qed
    qed
  qed
qed

lemma title_lowercase_df: "map str_title (columns lowercase_df) = [''Amount'']"
  by (simp add: lowercase_df_def title_amount)

lemma create_workbook_lowercase:
  "create_workbook sample_sheet lowercase_df lowercase_formats
     = Raised (KeyError ''amount'') (sample_sheet, lowercase_df\<lparr>columns := [''Amount'']\<rparr>)"
proof -
  have "format_columns lowercase_formats (lowercase_df\<lparr>columns := map str_title (columns lowercase_df)\<rparr>, [])
      = Raised (KeyError ''amount'') (lowercase_df\<lparr>columns := map str_title (columns lowercase_df)\<rparr>, [])"
    unfolding lowercase_formats_def
    by (rule format_columns_missing_first) (simp_all add: title_lowercase_df)
  from create_workbook_format_raised[OF this] show ?thesis by (simp add: title_lowercase_df)
qed

text \<open>
  Claim C10. The column labels are put in title case before any directive is looked at, and
  a directive's key is looked up among the title-cased labels: a directive of kind date or
  currency whose key is a label of the dataset as the caller passed it, but is not among
  the title-cased labels, makes \<open>create_workbook\<close> raise \<^verbatim>\<open>KeyError\<close> for that key once
  the directives before it have gone through; the dataset it leaves has the title-cased
  labels.
\<close>

theorem directive_keys_meet_titled_columns:
  assumes "k \<in> set (columns df)" "k \<notin> set (map str_title (columns df))"
    and "fmt = ''date'' \<or> fmt = ''currency''"
    and "format_columns pre (df\<lparr>columns := map str_title (columns df)\<rparr>, []) = Returned (df1, cur)"
  shows "create_workbook ws df (pre @ (k, fmt) # post) = Raised (KeyError k) (ws, df1)
       \<and> columns df1 = map str_title (columns df)"
proof -
  from format_columns_frame[of pre "df\<lparr>columns := map str_title (columns df)\<rparr>" "[]" df1 cur] assms(4)
  have c: "columns df1 = map str_title (columns df)" by simp
  with assms(2) have "k \<notin> set (columns (fst (df1, cur)))" by simp
  from format_columns_missing_first[OF this assms(3), of post]
  have "format_columns (pre @ (k, fmt) # post) (df\<lparr>columns := map str_title (columns df)\<rparr>, [])
      = Raised (KeyError k) (df1, cur)"
    by (simp add: format_columns_append assms(4))
  from create_workbook_format_raised[OF this] c show ?thesis by simp
qed

theorem directive_keys_meet_titled_columns_witness:
  "create_workbook sample_sheet lowercase_df [(''amount'', ''currency'')]
     = Raised (KeyError ''amount'') (sample_sheet, lowercase_df\<lparr>columns := [''Amount'']\<rparr>)"
proof -
  have 1: "''amount'' \<in> set (columns lowercase_df)" by (simp add: lowercase_df_def)
  have 2: "''amount'' \<notin> set (map str_title (columns lowercase_df))" by (simp add: title_lowercase_df)
  have 3: "''currency'' = ''date'' \<or> ''currency'' = ''currency''" by simp
  have 4: "format_columns [] (lowercase_df\<lparr>columns := map str_title (columns lowercase_df)\<rparr>, [])
       = Returned (lowercase_df\<lparr>columns := [''Amount'']\<rparr>, [])" by (simp add: title_lowercase_df)
  from directive_keys_meet_titled_columns[OF 1 2 3 4, of sample_sheet "[]"] show ?thesis by simp
qed

text \<open>What \<^verbatim>\<open>str.title()\<close> returns never has a capital right after a letter.\<close>

lemma to_lower_not_upper: "\<not> is_upper (to_lower c)"
  by (simp add: to_lower_def is_upper_def)

lemma to_upper_not_lower: "\<not> is_lower (to_upper c)"
proof (cases "is_lower c")
  case True
  then have "(of_char c :: nat) - 32 < 97" unfolding is_lower_def by arith
  then have "((of_char c :: nat) - 32) mod 256 < 97" by simp
  with True show ?thesis by (simp add: to_upper_def is_lower_def)
next
  case False
  then show ?thesis by (simp add: to_upper_def)
qed

lemma is_lower_to_lower: "is_lower (to_lower c) \<Longrightarrow> is_lower c \<or> is_upper c"
  by (cases "is_upper c") (simp_all add: to_lower_def)

lemma length_title_from: "length (title_from b s) = length s"
  by (induction s arbitrary: b) simp_all

lemma title_from_nth:
  "Suc i < length s \<Longrightarrow>
   title_from b s ! Suc i =
     (if is_lower (s ! i) \<or> is_upper (s ! i) then to_lower (s ! Suc i) else to_upper (s ! Suc i))"
proof (induction s arbitrary: b i)
  case Nil then show ?case by simp
next
  case (Cons c cs)
  show ?case
  proof (cases i)
    case 0
    with Cons.prems obtain d ds where "cs = d # ds" by (cases cs) auto
    with 0 show ?thesis by simp
  next
    case (Suc j)
    with Cons.prems have "Suc j < length cs" by simp
    from Cons.IH[OF this, of "is_lower c \<or> is_upper c"] Suc show ?thesis by simp
  qed
qed

lemma str_title_not_DateColumn: "str_title s \<noteq> ''DateColumn''"
proof
  assume a: "str_title s = ''DateColumn''"
  then have t: "title_from False s = ''DateColumn''" by (simp add: str_title_def)
  from length_title_from[of False s] t have l: "length s = 10" by simp
  have e: "title_from False s ! Suc 2 = CHR ''e''" "title_from False s ! Suc 3 = CHR ''C''"
    unfolding t by (simp_all add: numeral_3_eq_3 numeral_2_eq_2)
  have le: "is_lower (CHR ''e'')" by (simp add: is_lower_def)
  have uc: "is_upper (CHR ''C'')" by (simp add: is_upper_def)
  have "Suc 2 < length s" using l by simp
  from title_from_nth[OF this, of False] e(1)
  have "(if is_lower (s ! 2) \<or> is_upper (s ! 2) then to_lower (s ! Suc 2) else to_upper (s ! Suc 2))
          = CHR ''e''" by simp
  with le to_upper_not_lower[of "s ! Suc 2"] have "is_lower (to_lower (s ! Suc 2))"
    by (auto split: if_splits)
  from is_lower_to_lower[OF this] have c: "is_lower (s ! Suc 2) \<or> is_upper (s ! Suc 2)" .
  have 3: "Suc 2 = 3" by simp
  have "Suc 3 < length s" using l by simp
  from title_from_nth[OF this, of False] e(2) c[unfolded 3]
  have "to_lower (s ! Suc 3) = CHR ''C''" by simp
  with uc to_lower_not_upper[of "s ! Suc 3"] show False by simp
qed

text \<open>
  Claim C6. The claim is what the function's documentation promises: its example passes the
  directives \<^verbatim>\<open>DateColumn="date", AmountColumn="currency"\<close> for a dataset with these
  columns. The code breaks that promise: it puts the labels in title case before it looks
  the keys up, no title-cased label has a capital inside a word, and so the example raises
  \<^verbatim>\<open>KeyError\<close> for its first key on every worksheet and every dataset, the one whose
  columns are named by the keys included. The worksheet is left as it was and the dataset
  with the renamed labels.
\<close>

theorem docstring_example_raises:
  "create_workbook ws df docstring_formats
     = Raised (KeyError ''DateColumn'') (ws, df\<lparr>columns := map str_title (columns df)\<rparr>)"
proof -
  let ?df1 = "df\<lparr>columns := map str_title (columns df)\<rparr>"
  have "''DateColumn'' \<notin> set (columns (fst (?df1, [])))"
    by (auto simp: str_title_not_DateColumn[THEN not_sym])
  then have "format_columns docstring_formats (?df1, []) = Raised (KeyError ''DateColumn'') (?df1, [])"
    unfolding docstring_formats_def by (rule format_columns_missing_first) simp
  from create_workbook_format_raised[OF this] show ?thesis .
qed

end
